theory Spec2Isabelle
  imports Complex_Main "HOL-Library.Word" "HOL-Library.AList"
begin

section \<open>JavaScript values as the forms use them\<close>

text \<open>
  A JavaScript number is \<open>NaN\<close>, one of the two infinities, or a finite value.  A finite
  value is kept as the exact rational it denotes: IEEE rounding is not modelled.  Every bound
  of the validation tables is an integer below \<open>2^53\<close>, and rounding to the nearest double is
  monotone, so for integer inputs the comparisons against the bounds come out as they do on
  doubles.
\<close>

datatype number = NaN | NegInfinity | Fin rat | PosInfinity

text \<open>The values a form field can hold: a number literal, the text of an input element, or
  \<open>undefined\<close> for a key the object does not have.\<close>

datatype jsval = JNumber number | JString string | JUndefined

text \<open>\<open>a >= b\<close>, \<open>a <= b\<close>, \<open>a < b\<close>, \<open>a > b\<close> with a finite right operand;
  every comparison with \<open>NaN\<close> is false.\<close>

fun num_ge :: "number \<Rightarrow> rat \<Rightarrow> bool" where
  "num_ge NaN b = False"
| "num_ge NegInfinity b = False"
| "num_ge (Fin a) b = (b \<le> a)"
| "num_ge PosInfinity b = True"

fun num_le :: "number \<Rightarrow> rat \<Rightarrow> bool" where
  "num_le NaN b = False"
| "num_le NegInfinity b = True"
| "num_le (Fin a) b = (a \<le> b)"
| "num_le PosInfinity b = False"

fun num_lt :: "number \<Rightarrow> rat \<Rightarrow> bool" where
  "num_lt NaN b = False"
| "num_lt NegInfinity b = True"
| "num_lt (Fin a) b = (a < b)"
| "num_lt PosInfinity b = False"

fun num_gt :: "number \<Rightarrow> rat \<Rightarrow> bool" where
  "num_gt NaN b = False"
| "num_gt NegInfinity b = False"
| "num_gt (Fin a) b = (b < a)"
| "num_gt PosInfinity b = True"

fun isNaN :: "number \<Rightarrow> bool" where
  "isNaN NaN = True"
| "isNaN _ = False"

text \<open>\<open>!value\<close> is true exactly when \<open>truthy value\<close> is false.\<close>

fun truthy :: "jsval \<Rightarrow> bool" where
  "truthy (JNumber NaN) = False"
| "truthy (JNumber (Fin x)) = (x \<noteq> 0)"
| "truthy (JNumber _) = True"
| "truthy (JString s) = (s \<noteq> [])"
| "truthy JUndefined = False"

subsection \<open>parseFloat\<close>

text \<open>
  A character of a string stands for the UTF-16 code unit of the same number, so the strings
  here are those whose code units are below 256.  Among these, the white space and line
  terminators that \<open>parseFloat\<close> skips are tab, line feed, vertical tab, form feed,
  carriage return, space and the no-break space.
\<close>

definition is_ws :: "char \<Rightarrow> bool" where
  "is_ws c = ((of_char c :: nat) \<in> {9, 10, 11, 12, 13, 32, 160})"

definition is_digit :: "char \<Rightarrow> bool" where
  "is_digit c = (48 \<le> (of_char c :: nat) \<and> (of_char c :: nat) \<le> 57)"

definition digit_val :: "char \<Rightarrow> nat" where
  "digit_val c = of_char c - 48"

definition digits_val :: "string \<Rightarrow> nat" where
  "digits_val ds = foldl (\<lambda>a c. 10 * a + digit_val c) 0 ds"

definition pow10 :: "int \<Rightarrow> rat" where
  "pow10 e = (if 0 \<le> e then 10 ^ nat e else 1 / 10 ^ nat (- e))"

text \<open>The exponent part counts only when a digit follows the \<open>e\<close> and its sign.\<close>

definition exponent_part :: "string \<Rightarrow> int" where
  "exponent_part r =
     (case r of
        [] \<Rightarrow> 0
      | c # r' \<Rightarrow>
          if c = CHR ''e'' \<or> c = CHR ''E'' then
            (case r' of
               [] \<Rightarrow> 0
             | d # r'' \<Rightarrow>
                 if d = CHR ''-'' then - int (digits_val (takeWhile is_digit r''))
                 else if d = CHR ''+'' then int (digits_val (takeWhile is_digit r''))
                 else int (digits_val (takeWhile is_digit r')))
          else 0)"

text \<open>
  \<open>parseFloat\<close> on a string: leading white space is dropped, then the longest prefix that
  is a decimal literal (sign, digits, fraction, exponent, or \<open>Infinity\<close>) is read and the
  rest of the string is ignored; with no such prefix the result is \<open>NaN\<close>.  The result
  is the exact value of the literal.  That is the double JavaScript returns when the value
  is a double (an integer of magnitude up to \<open>2^53\<close>, a short binary fraction such as 14.5);
  for any other integer literal the double is the nearest one, which lies on the same side
  of every bound of the validation tables.  On other literals (a long decimal fraction just
  beside a bound, an exponent beyond the range of doubles) JavaScript rounds and this
  function does not, so the statements below that are meant for the code speak of integer
  values, or of the exactly representable values they name.
\<close>

definition parseFloat_str :: "string \<Rightarrow> number" where
  "parseFloat_str inputString =
     (let trimmed = dropWhile is_ws inputString;
          neg = (case trimmed of [] \<Rightarrow> False | c # t \<Rightarrow> c = CHR ''-'');
          body = (case trimmed of [] \<Rightarrow> []
                  | c # t \<Rightarrow> if c = CHR ''-'' \<or> c = CHR ''+'' then t else trimmed)
      in if take 8 body = ''Infinity'' then (if neg then NegInfinity else PosInfinity)
         else
           let ip = takeWhile is_digit body;
               r1 = dropWhile is_digit body;
               hasdot = (case r1 of [] \<Rightarrow> False | c # t \<Rightarrow> c = CHR ''.'');
               fp = (if hasdot then takeWhile is_digit (tl r1) else []);
               r2 = (if hasdot then dropWhile is_digit (tl r1) else r1)
           in if ip = [] \<and> fp = [] then NaN
              else
                let m = of_nat (digits_val ip) + of_nat (digits_val fp) / 10 ^ length fp;
                    v = m * pow10 (exponent_part r2)
                in Fin (if neg then - v else v))"

text \<open>
  \<open>parseFloat\<close> converts its argument to a string first.  For a number that conversion
  followed by the parse gives the number back (\<open>NaN\<close> prints as a string with no numeric
  prefix, the infinities print as \<open>Infinity\<close>), and \<open>undefined\<close> prints as a word with
  no numeric prefix.
\<close>

fun parseFloat :: "jsval \<Rightarrow> number" where
  "parseFloat (JNumber x) = x"
| "parseFloat (JString s) = parseFloat_str s"
| "parseFloat JUndefined = NaN"

text \<open>Property read on an object: a missing key reads as \<open>undefined\<close>.\<close>

definition get :: "(string \<times> jsval) list \<Rightarrow> string \<Rightarrow> jsval" where
  "get obj k = (case map_of obj k of None \<Rightarrow> JUndefined | Some v \<Rightarrow> v)"

text \<open>Decimal numerals, as a number input or a typed string carries an integer.\<close>

definition digit_char :: "nat \<Rightarrow> char" where
  "digit_char d = char_of (48 + d)"

fun show_nat :: "nat \<Rightarrow> string" where
  "show_nat n = (if n < 10 then [digit_char n] else show_nat (n div 10) @ [digit_char (n mod 10)])"

declare show_nat.simps [simp del]

definition show_int :: "int \<Rightarrow> string" where
  "show_int i = (if i < 0 then CHR ''-'' # show_nat (nat (- i)) else show_nat (nat i))"

section \<open>The main form: \<open>App.jsx\<close>\<close>

text \<open>An object literal: a key written twice keeps its first position and its last value.\<close>

definition object_of :: "(string \<times> 'v) list \<Rightarrow> (string \<times> 'v) list" where
  "object_of entries = foldl (\<lambda>obj kv. AList.update (fst kv) (snd kv) obj) [] entries"

record status_t =
  stype :: string
  message :: string

record app_state =
  config :: "(string \<times> jsval) list"
  status :: "status_t option"
  isSubmitting :: bool
  errors :: "(string \<times> string) list"

definition initial_config :: "(string \<times> jsval) list" where
  "initial_config = object_of
     [(''deviceMode'', JString ''receive''),
      (''streamingProtocol'', JString ''uart''),
      (''modulation'', JString ''QPSK''),
      (''fc'', JNumber (Fin 915000000)),
      (''fs'', JNumber (Fin 2000000)),
      (''rfg'', JNumber (Fin 14)),
      (''ifg'', JNumber (Fin 20)),
      (''bbg'', JNumber (Fin 30)),
      (''rfg'', JNumber (Fin 14)),
      (''ifg'', JNumber (Fin 20)),
      (''bbg'', JNumber (Fin 30)),
      (''filePath'', JString []),
      (''port'', JString [])]"

definition initial_state :: app_state where
  "initial_state = \<lparr>config = initial_config, status = None, isSubmitting = False, errors = []\<rparr>"

record range =
  rmin :: rat
  rmax :: rat
  label :: string

definition ranges :: "(string \<times> range) list" where
  "ranges =
     [(''fc'', \<lparr>rmin = 1000000, rmax = 6000000000, label = ''1 MHz - 6 GHz''\<rparr>),
      (''fs'', \<lparr>rmin = 1000000, rmax = 20000000, label = ''1 MHz - 20 MHz''\<rparr>),
      (''rfg'', \<lparr>rmin = 0, rmax = 47, label = ''0-47 dB''\<rparr>),
      (''ifg'', \<lparr>rmin = 0, rmax = 40, label = ''0-40 dB''\<rparr>),
      (''bbg'', \<lparr>rmin = 0, rmax = 62, label = ''0-62 dB''\<rparr>)]"

text \<open>\<open>validateField\<close> is a closure of the component; it is run in the component's state
  and hands the state on.\<close>

definition validateField :: "string \<Rightarrow> jsval \<Rightarrow> app_state \<Rightarrow> bool \<times> app_state" where
  "validateField field value s =
     (case map_of ranges field of
        None \<Rightarrow> (True, s)
      | Some rng \<Rightarrow>
          (let numValue = parseFloat value
           in if isNaN numValue then (False, s)
              else (num_ge numValue (rmin rng) \<and> num_le numValue (rmax rng), s)))"

text \<open>The \<open>forEach\<close> over \<open>Object.keys(ranges)\<close>; each key is met together with the entry
  that \<open>ranges[field]\<close> reads.\<close>

fun validateAll_loop ::
  "(string \<times> range) list \<Rightarrow> (string \<times> string) list \<Rightarrow> app_state
     \<Rightarrow> (string \<times> string) list \<times> app_state" where
  "validateAll_loop [] newErrors s = (newErrors, s)"
| "validateAll_loop ((field, rng) # rest) newErrors s =
     (case validateField field (get (config s) field) s of
        (ok, s') \<Rightarrow>
          validateAll_loop rest
            (if \<not> ok then AList.update field (''Must be between '' @ label rng) newErrors
             else newErrors) s')"

definition validateAll :: "app_state \<Rightarrow> bool \<times> app_state" where
  "validateAll s =
     (case validateAll_loop ranges [] s of
        (newErrors, s') \<Rightarrow> (newErrors = [], s'\<lparr>errors := newErrors\<rparr>))"

text \<open>
  The network as the handlers see it: a request is answered by a response (its \<open>ok\<close> flag
  and the string fields of its JSON body), or the \<open>try\<close> block throws with a message.
\<close>

record request =
  url :: string
  http_method :: string
  body :: "(string \<times> jsval) list"

datatype fetch_outcome = Response bool "(string \<times> string) list" | Thrown string

text \<open>A body field inside a template literal; a missing one prints as \<open>undefined\<close>.\<close>

definition field_text :: "(string \<times> string) list \<Rightarrow> string \<Rightarrow> string" where
  "field_text data k = (case map_of data k of None \<Rightarrow> ''undefined'' | Some v \<Rightarrow> v)"

text \<open>\<open>a || b\<close> on a body field: the field when it is present and not empty.\<close>

definition field_or :: "(string \<times> string) list \<Rightarrow> string \<Rightarrow> string \<Rightarrow> string" where
  "field_or data k dflt =
     (case map_of data k of None \<Rightarrow> dflt | Some v \<Rightarrow> if v = [] then dflt else v)"

text \<open>\<open>handleSubmit\<close> returns the requests it issued and the state once it has finished.\<close>

definition handleSubmit ::
  "(request \<Rightarrow> fetch_outcome) \<Rightarrow> app_state \<Rightarrow> request list \<times> app_state" where
  "handleSubmit fetch s =
     (case validateAll s of
        (valid, s1) \<Rightarrow>
          if \<not> valid then
            ([], s1\<lparr>status := Some \<lparr>stype = ''error'',
                                   message = ''Please fix validation errors before saving''\<rparr>\<rparr>)
          else
            let s2 = s1\<lparr>isSubmitting := True, status := None\<rparr>;
                req = \<lparr>url = ''/api/config'', http_method = ''POST'', body = config s\<rparr>;
                s3 = (case fetch req of
                        Response ok data \<Rightarrow>
                          if ok then
                            s2\<lparr>status := Some \<lparr>stype = ''success'',
                                message = ''Configuration saved successfully! Files: ''
                                  @ field_text data ''bin_file'' @ '', ''
                                  @ field_text data ''txt_file''\<rparr>\<rparr>
                          else
                            s2\<lparr>status := Some \<lparr>stype = ''error'',
                                message = field_or data ''error'' ''Failed to save configuration''\<rparr>\<rparr>
                      | Thrown msg \<Rightarrow>
                          s2\<lparr>status := Some \<lparr>stype = ''error'',
                                               message = ''Network error: '' @ msg\<rparr>\<rparr>)
            in ([req], s3\<lparr>isSubmitting := False\<rparr>))"

definition updateConfig :: "string \<Rightarrow> jsval \<Rightarrow> app_state \<Rightarrow> app_state" where
  "updateConfig field value s =
     s\<lparr>config := AList.update field value (config s),
       errors := (case map_of (errors s) field of
                    None \<Rightarrow> errors s
                  | Some e \<Rightarrow> if e = [] then errors s else AList.delete field (errors s))\<rparr>"

text \<open>The click handler of the Reset to Defaults button.\<close>

definition reset_config :: "(string \<times> jsval) list" where
  "reset_config = object_of
     [(''deviceMode'', JString ''receive''),
      (''streamingProtocol'', JString ''uart''),
      (''modulation'', JString ''QPSK''),
      (''fc'', JNumber (Fin 915000000)),
      (''fs'', JNumber (Fin 2000000)),
      (''rfg'', JNumber (Fin 14)),
      (''ifg'', JNumber (Fin 20)),
      (''bbg'', JNumber (Fin 30)),
      (''filePath'', JString [])]"

definition resetToDefaults :: "app_state \<Rightarrow> app_state" where
  "resetToDefaults s = s\<lparr>config := reset_config, errors := []\<rparr>"


text \<open>
  Every identifier bound in \<open>App.jsx\<close>: the import, the component, and the constants
  declared in its body.
\<close>

definition app_scope :: "string list" where
  "app_scope =
     [''useState'', ''App'',
      ''config'', ''setConfig'', ''status'', ''setStatus'',
      ''isSubmitting'', ''setIsSubmitting'', ''errors'', ''setErrors'',
      ''ranges'', ''validateField'', ''validateAll'', ''handleSubmit'', ''updateConfig'',
      ''handleFileSelect'', ''handleCheckConnection'', ''handleSendConfig'', ''hasErrors'']"

datatype js_error = ReferenceError string

text \<open>Reading an identifier: a name that is not bound throws.\<close>

definition resolve :: "string \<Rightarrow> js_error + string" where
  "resolve name = (if name \<in> set app_scope then Inr name else Inl (ReferenceError name))"

datatype call = Call string "jsval list"

text \<open>
  The five inputs that carry \<open>onBlur={() => handleBlur(field)}\<close>, and what running that
  arrow function comes to: the callee is read first, and only a bound callee is called.
\<close>

definition blur_inputs :: "string list" where
  "blur_inputs = [''fc'', ''fs'', ''rfg'', ''ifg'', ''bbg'']"

definition onBlur :: "string \<Rightarrow> js_error + call" where
  "onBlur field =
     (case resolve ''handleBlur'' of
        Inl e \<Rightarrow> Inl e
      | Inr f \<Rightarrow> Inr (Call f [JString field]))"

section \<open>The wizard's parameter form: \<open>RFConfiguration\<close>\<close>

record rule =
  rule_min :: rat
  rule_max :: rat
  rule_unit :: string
  rule_label :: string
  rule_hint :: string

definition validationRules :: "(string \<times> rule) list" where
  "validationRules =
     [(''fc'', \<lparr>rule_min = 1000000, rule_max = 6000000000, rule_unit = ''Hz'',
               rule_label = ''Carrier Frequency'', rule_hint = ''Range: 1 MHz - 6 GHz''\<rparr>),
      (''fs'', \<lparr>rule_min = 1000000, rule_max = 20000000, rule_unit = ''Hz'',
               rule_label = ''Sampling Frequency'', rule_hint = ''Range: 1 MHz - 20 MHz''\<rparr>),
      (''rfg'', \<lparr>rule_min = 0, rule_max = 47, rule_unit = ''dB'',
                rule_label = ''RF Gain'', rule_hint = ''Range: 0 - 47 dB''\<rparr>),
      (''ifg'', \<lparr>rule_min = 0, rule_max = 40, rule_unit = ''dB'',
                rule_label = ''IF Gain'', rule_hint = ''Range: 0 - 40 dB''\<rparr>),
      (''bbg'', \<lparr>rule_min = 0, rule_max = 62, rule_unit = ''dB'',
                rule_label = ''Baseband Gain'', rule_hint = ''Range: 0 - 62 dB''\<rparr>)]"

text \<open>
  A finite number inside a template literal, as its decimal expansion (cut after 17 fraction
  digits).  JavaScript prints the shortest digits that read back as the same double; for the
  quotients \<open>formatValue\<close> forms from the bounds of \<open>validationRules\<close>, all of them
  integers, that is this text.
\<close>

fun frac_digits :: "nat \<Rightarrow> rat \<Rightarrow> string" where
  "frac_digits 0 r = []"
| "frac_digits (Suc k) r =
     (if r = 0 then []
      else digit_char (nat \<lfloor>10 * r\<rfloor>) # frac_digits k (10 * r - of_int \<lfloor>10 * r\<rfloor>))"

definition number_text :: "rat \<Rightarrow> string" where
  "number_text x =
     (let a = \<bar>x\<bar>; ip = \<lfloor>a\<rfloor>; fr = a - of_int ip
      in (if x < 0 then ''-'' else []) @ show_nat (nat ip)
         @ (if fr = 0 then [] else CHR ''.'' # frac_digits 17 fr))"

definition formatValue :: "rat \<Rightarrow> string \<Rightarrow> string" where
  "formatValue value u =
     (if u = ''Hz'' then
        (if 1000000000 \<le> value then number_text (value / 1000000000) @ '' GHz''
         else if 1000000 \<le> value then number_text (value / 1000000) @ '' MHz''
         else if 1000 \<le> value then number_text (value / 1000) @ '' kHz''
         else number_text value @ '' Hz'')
      else number_text value @ '' '' @ u)"

record rf_state =
  formData :: "(string \<times> jsval) list"
  rf_errors :: "(string \<times> string option) list"
  touched :: "(string \<times> bool) list"

definition rf_initial_state :: rf_state where
  "rf_initial_state =
     \<lparr>formData = object_of
        [(''modulation'', JString ''QPSK''), (''fc'', JString []), (''fs'', JString []),
         (''rfg'', JString []), (''ifg'', JString []), (''bbg'', JString [])],
      rf_errors = [], touched = []\<rparr>"

text \<open>\<open>validateField\<close> of \<open>RFConfiguration\<close>: the error text, or \<open>None\<close> for \<open>null\<close>.\<close>

definition rf_validateField :: "string \<Rightarrow> jsval \<Rightarrow> rf_state \<Rightarrow> string option \<times> rf_state" where
  "rf_validateField name value s =
     (if \<not> truthy value then (Some ''This field is required'', s)
      else
        let numValue = parseFloat value
        in if isNaN numValue then (Some ''Must be a valid number'', s)
           else
             (case map_of validationRules name of
                None \<Rightarrow> (None, s)
              | Some rule \<Rightarrow>
                  if num_lt numValue (rule_min rule) then
                    (Some (''Value too low. Minimum: ''
                             @ formatValue (rule_min rule) (rule_unit rule)), s)
                  else if num_gt numValue (rule_max rule) then
                    (Some (''Value too high. Maximum: ''
                             @ formatValue (rule_max rule) (rule_unit rule)), s)
                  else (None, s)))"

definition rf_handleChange :: "string \<Rightarrow> jsval \<Rightarrow> rf_state \<Rightarrow> rf_state" where
  "rf_handleChange name value s =
     (let s1 = s\<lparr>formData := AList.update name value (formData s)\<rparr>
      in if map_of (touched s) name = Some True then
           (case rf_validateField name value s1 of
              (error, s2) \<Rightarrow> s2\<lparr>rf_errors := AList.update name error (rf_errors s2)\<rparr>)
         else s1)"

definition rf_handleBlur :: "string \<Rightarrow> jsval \<Rightarrow> rf_state \<Rightarrow> rf_state" where
  "rf_handleBlur name value s =
     (let s1 = s\<lparr>touched := AList.update name True (touched s)\<rparr>
      in case rf_validateField name value s1 of
           (error, s2) \<Rightarrow> s2\<lparr>rf_errors := AList.update name error (rf_errors s2)\<rparr>)"

fun rf_submit_loop ::
  "(string \<times> rule) list \<Rightarrow> (string \<times> string) list \<Rightarrow> rf_state
     \<Rightarrow> (string \<times> string) list \<times> rf_state" where
  "rf_submit_loop [] newErrors s = (newErrors, s)"
| "rf_submit_loop ((field, r) # rest) newErrors s =
     (case rf_validateField field (get (formData s) field) s of
        (error, s') \<Rightarrow>
          rf_submit_loop rest
            (case error of
               None \<Rightarrow> newErrors
             | Some e \<Rightarrow> if e = [] then newErrors else AList.update field e newErrors) s')"

text \<open>\<open>handleSubmit\<close> of \<open>RFConfiguration\<close> returns the object handed to \<open>onSubmit\<close>,
  if it was called, and the state.\<close>

definition rf_handleSubmit :: "rf_state \<Rightarrow> (string \<times> jsval) list option \<times> rf_state" where
  "rf_handleSubmit s =
     (case rf_submit_loop validationRules [] s of
        (newErrors, s1) \<Rightarrow>
          if newErrors \<noteq> [] then
            (None, s1\<lparr>rf_errors := map (\<lambda>kv. (fst kv, Some (snd kv))) newErrors,
                      touched := [(''fc'', True), (''fs'', True), (''rfg'', True),
                                  (''ifg'', True), (''bbg'', True)]\<rparr>)
          else
            (Some [(''modulation'', get (formData s1) ''modulation''),
                   (''fc'', JNumber (parseFloat (get (formData s1) ''fc''))),
                   (''fs'', JNumber (parseFloat (get (formData s1) ''fs''))),
                   (''rfg'', JNumber (parseFloat (get (formData s1) ''rfg''))),
                   (''ifg'', JNumber (parseFloat (get (formData s1) ''ifg''))),
                   (''bbg'', JNumber (parseFloat (get (formData s1) ''bbg'')))], s1))"

section \<open>The wizard's protocol step: \<open>StreamingProtocolSelector\<close>\<close>

text \<open>A call of the \<open>onSelect\<close> callback: the protocol and, for a file, the file's name.\<close>

datatype select_call = OnSelect string "string option"

definition handleProtocolSelect :: "string \<Rightarrow> select_call list" where
  "handleProtocolSelect protocolId =
     (if protocolId = ''file'' then [] else [OnSelect protocolId None])"

text \<open>The state is \<open>selectedFile\<close>; the argument is the first chosen file, if any.\<close>

definition handleFileChange :: "string option \<Rightarrow> string option \<Rightarrow> select_call list \<times> string option" where
  "handleFileChange file selectedFile =
     (case file of
        None \<Rightarrow> ([], selectedFile)
      | Some f \<Rightarrow> ([OnSelect ''file'' (Some f)], Some f))"


section \<open>The Frame Codec\<close>

text \<open>
  Modelled from the spec: the backend's \<open>binary_protocol.py\<close> is not among the sources, so
  the record, \<open>validate\<close>, \<open>encode\<close> and \<open>decode\<close> follow sections 3 and 4.1 of the
  specification.  Where the specification leaves a choice open, the model fixes it: the
  version byte is 1, enumeration values are numbered in the order the specification lists
  them, integers are big-endian, and the checksum is CRC-16/CCITT (polynomial \<open>0x1021\<close>,
  initial value \<open>0xFFFF\<close>), the algorithm the specification names as its example.
\<close>

datatype device_mode = Receive | Transmit

datatype streaming_protocol = UART | I2C | SPI | File

datatype modulation = BPSK | QPSK | FSK

record ConfigurationRecord =
  device_mode :: device_mode
  streaming_protocol :: streaming_protocol
  modulation :: modulation
  carrier_frequency_hz :: "64 word"
  sampling_frequency_hz :: "32 word"
  rf_gain_db :: "8 word"
  if_gain_db :: "8 word"
  baseband_gain_db :: "8 word"
  source_file_path :: "string option"

text \<open>Modelled from the spec: the error of \<open>validate\<close>, a field name and a reason.\<close>

record ValidationError =
  field :: string
  reason :: string

text \<open>Modelled from the spec: \<open>validate\<close> checks the fields in the order of section 3 and
  returns the first violation, with the field name and the allowed range.\<close>

definition validate :: "ConfigurationRecord \<Rightarrow> ValidationError + unit" where
  "validate r =
     (if \<not> (1000000 \<le> carrier_frequency_hz r \<and> carrier_frequency_hz r \<le> 6000000000) then
        Inl \<lparr>field = ''carrier_frequency_hz'', reason = ''allowed range 1000000 - 6000000000''\<rparr>
      else if \<not> (1000000 \<le> sampling_frequency_hz r \<and> sampling_frequency_hz r \<le> 20000000) then
        Inl \<lparr>field = ''sampling_frequency_hz'', reason = ''allowed range 1000000 - 20000000''\<rparr>
      else if \<not> rf_gain_db r \<le> 47 then
        Inl \<lparr>field = ''rf_gain_db'', reason = ''allowed range 0 - 47''\<rparr>
      else if \<not> if_gain_db r \<le> 40 then
        Inl \<lparr>field = ''if_gain_db'', reason = ''allowed range 0 - 40''\<rparr>
      else if \<not> baseband_gain_db r \<le> 62 then
        Inl \<lparr>field = ''baseband_gain_db'', reason = ''allowed range 0 - 62''\<rparr>
      else if streaming_protocol r = File
              \<and> (source_file_path r = None \<or> source_file_path r = Some []) then
        Inl \<lparr>field = ''source_file_path'', reason = ''required and not empty for File''\<rparr>
      else Inr ())"

text \<open>Modelled from the spec: big-endian bytes of a fixed-width integer, and back.\<close>

definition be_bytes :: "nat \<Rightarrow> 'a::len word \<Rightarrow> 8 word list" where
  "be_bytes n w = map (\<lambda>i. ucast (drop_bit (8 * i) w)) (rev [0..<n])"

definition of_be_bytes :: "8 word list \<Rightarrow> 'a::len word" where
  "of_be_bytes bs = foldl (\<lambda>acc b. or (push_bit 8 acc) (ucast b)) 0 bs"

text \<open>Modelled from the spec: CRC-16/CCITT, one bit at a time, most significant bit first.\<close>

fun crc16_bits :: "nat \<Rightarrow> 16 word \<Rightarrow> 16 word" where
  "crc16_bits 0 crc = crc"
| "crc16_bits (Suc k) crc =
     crc16_bits k (if bit crc 15 then xor (push_bit 1 crc) 0x1021 else push_bit 1 crc)"

definition crc16_ccitt :: "8 word list \<Rightarrow> 16 word" where
  "crc16_ccitt bs = foldl (\<lambda>crc b. crc16_bits 8 (xor crc (push_bit 8 (ucast b)))) 0xFFFF bs"

text \<open>Modelled from the spec: one byte for each enumeration, its values numbered in the
  order section 3 lists them, and the way back, which fails on any other byte.\<close>

definition mode_byte :: "device_mode \<Rightarrow> 8 word" where
  "mode_byte m = (case m of Receive \<Rightarrow> 0 | Transmit \<Rightarrow> 1)"

definition protocol_byte :: "streaming_protocol \<Rightarrow> 8 word" where
  "protocol_byte p = (case p of UART \<Rightarrow> 0 | I2C \<Rightarrow> 1 | SPI \<Rightarrow> 2 | File \<Rightarrow> 3)"

definition modulation_byte :: "modulation \<Rightarrow> 8 word" where
  "modulation_byte m = (case m of BPSK \<Rightarrow> 0 | QPSK \<Rightarrow> 1 | FSK \<Rightarrow> 2)"

definition mode_of_byte :: "8 word \<Rightarrow> device_mode option" where
  "mode_of_byte b = (if b = 0 then Some Receive else if b = 1 then Some Transmit else None)"

definition protocol_of_byte :: "8 word \<Rightarrow> streaming_protocol option" where
  "protocol_of_byte b =
     (if b = 0 then Some UART else if b = 1 then Some I2C
      else if b = 2 then Some SPI else if b = 3 then Some File else None)"

definition modulation_of_byte :: "8 word \<Rightarrow> modulation option" where
  "modulation_of_byte b =
     (if b = 0 then Some BPSK else if b = 1 then Some QPSK
      else if b = 2 then Some FSK else None)"

text \<open>Modelled from the spec: the magic/version byte that opens a frame.\<close>

definition frame_version :: "8 word" where
  "frame_version = 1"

text \<open>Modelled from the spec: the layout of section 4.1, 19 bytes before the checksum:
  version, mode, protocol, modulation, 8 bytes of carrier frequency, 4 bytes of sampling
  frequency, and one byte for each gain.  The file path has no place in it.\<close>

definition payload :: "ConfigurationRecord \<Rightarrow> 8 word list" where
  "payload r =
     [frame_version, mode_byte (device_mode r), protocol_byte (streaming_protocol r),
      modulation_byte (modulation r)]
     @ be_bytes 8 (carrier_frequency_hz r)
     @ be_bytes 4 (sampling_frequency_hz r)
     @ [rf_gain_db r, if_gain_db r, baseband_gain_db r]"

text \<open>Modelled from the spec: a frame is its byte sequence and its checksum.\<close>

record ConfigFrame =
  frame_bytes :: "8 word list"
  checksum :: "16 word"

text \<open>Modelled from the spec: \<open>encode\<close> validates first, then appends the checksum of every
  preceding byte.\<close>

definition encode :: "ConfigurationRecord \<Rightarrow> ValidationError + ConfigFrame" where
  "encode r =
     (case validate r of
        Inl e \<Rightarrow> Inl e
      | Inr _ \<Rightarrow>
          Inr \<lparr>frame_bytes = payload r @ be_bytes 2 (crc16_ccitt (payload r)),
               checksum = crc16_ccitt (payload r)\<rparr>)"

text \<open>Modelled from the spec: the errors of \<open>decode\<close>.\<close>

datatype FrameError = Malformed | ChecksumInvalid | UnsupportedVersion

text \<open>Modelled from the spec: \<open>decode\<close> compares the checksum before it reads any field;
  the record it returns carries no file path, since the frame holds none.\<close>

definition decode :: "8 word list \<Rightarrow> FrameError + ConfigurationRecord" where
  "decode bs =
     (if length bs \<noteq> 21 then Inl Malformed
      else if (of_be_bytes (drop 19 bs) :: 16 word) \<noteq> crc16_ccitt (take 19 bs) then
        Inl ChecksumInvalid
      else if bs ! 0 \<noteq> frame_version then Inl UnsupportedVersion
      else
        (case (mode_of_byte (bs ! 1), protocol_of_byte (bs ! 2), modulation_of_byte (bs ! 3)) of
           (Some m, Some p, Some md) \<Rightarrow>
             Inr \<lparr>device_mode = m, streaming_protocol = p, modulation = md,
                  carrier_frequency_hz = of_be_bytes (take 8 (drop 4 bs)),
                  sampling_frequency_hz = of_be_bytes (take 4 (drop 12 bs)),
                  rf_gain_db = bs ! 16, if_gain_db = bs ! 17, baseband_gain_db = bs ! 18,
                  source_file_path = None\<rparr>
         | _ \<Rightarrow> Inl Malformed))"

section \<open>The Serial Transport Manager\<close>

text \<open>
  Modelled from the spec: the backend's \<open>uart_sender.py\<close> is not among the sources, so the
  session states, \<open>probe\<close>, \<open>send\<close> and \<open>close\<close> follow section 4.2 of the specification.
  The manager's state gives each port name the state of its session, \<open>Closed\<close> when the
  port is not held.  What the port and the device do during one operation is an argument:
  whether the port opens, how many bytes the write accepts, and the reply that arrives
  within the timeout, if any.
\<close>

datatype session_state = Closed | Opening | Open | Sending | AwaitingAck | Closing

datatype device_reply = AckReply | ChecksumFailureReply | RejectReply nat

record port_io =
  opens :: bool
  bytes_written :: nat
  reply :: "device_reply option"

datatype TransmissionOutcome =
  Acknowledged | DeviceRejected nat | Timeout | PortUnavailable | ChecksumMismatchReportedByDevice

datatype ConnectionStatus = Reachable | Unreachable string

type_synonym manager = "string \<Rightarrow> session_state"

text \<open>Modelled from the spec: \<open>close\<close> takes the session through \<open>Closing\<close> to \<open>Closed\<close>.\<close>

definition close :: "manager \<Rightarrow> string \<Rightarrow> manager" where
  "close m port_name = (m(port_name := Closing))(port_name := Closed)"

text \<open>Modelled from the spec: how a reply is classified.\<close>

definition classify :: "device_reply \<Rightarrow> TransmissionOutcome" where
  "classify r =
     (case r of
        AckReply \<Rightarrow> Acknowledged
      | ChecksumFailureReply \<Rightarrow> ChecksumMismatchReportedByDevice
      | RejectReply code \<Rightarrow> DeviceRejected code)"

text \<open>Modelled from the spec: the write and the wait for the reply on an open session.  A
  partial write and a timeout end the session; after a reply the session is open again, and
  it is closed unless the caller brought it.\<close>

definition exchange ::
  "port_io \<Rightarrow> manager \<Rightarrow> string \<Rightarrow> 8 word list \<Rightarrow> bool \<Rightarrow> TransmissionOutcome \<times> manager" where
  "exchange io m port_name frame callers =
     (let m1 = m(port_name := Sending)
      in if bytes_written io < length frame then (PortUnavailable, close m1 port_name)
         else
           let m2 = m1(port_name := AwaitingAck)
           in case reply io of
                None \<Rightarrow> (Timeout, close m2 port_name)
              | Some r \<Rightarrow>
                  let m3 = m2(port_name := Open)
                  in (classify r, if callers then m3 else close m3 port_name))"

text \<open>Modelled from the spec: \<open>send\<close>.  \<open>held\<close> says that the caller holds an open session
  on the port and passes it in; any other session on the port makes the port unavailable.\<close>

definition send ::
  "port_io \<Rightarrow> manager \<Rightarrow> string \<Rightarrow> 8 word list \<Rightarrow> bool \<Rightarrow> TransmissionOutcome \<times> manager" where
  "send io m port_name frame held =
     (if held \<and> m port_name = Open then exchange io m port_name frame True
      else if m port_name \<noteq> Closed then (PortUnavailable, m)
      else
        let m1 = m(port_name := Opening)
        in if \<not> opens io then (PortUnavailable, m1(port_name := Closed))
           else exchange io (m1(port_name := Open)) port_name frame False)"

text \<open>Modelled from the spec: \<open>probe\<close> opens the port and closes it again.\<close>

definition probe :: "port_io \<Rightarrow> manager \<Rightarrow> string \<Rightarrow> ConnectionStatus \<times> manager" where
  "probe io m port_name =
     (if m port_name \<noteq> Closed then (Unreachable ''port in use'', m)
      else
        let m1 = m(port_name := Opening)
        in if \<not> opens io then (Unreachable ''cannot open port'', m1(port_name := Closed))
           else (Reachable, close (m1(port_name := Open)) port_name))"


text \<open>Modelled from the spec: the round trip of section 8, \<open>decode(encode(r))\<close>: the
  validation error of \<open>encode\<close>, or what \<open>decode\<close> makes of the frame's bytes.\<close>

definition decode_encode ::
  "ConfigurationRecord \<Rightarrow> ValidationError + (FrameError + ConfigurationRecord)" where
  "decode_encode r =
     (case encode r of Inl e \<Rightarrow> Inl e | Inr fr \<Rightarrow> Inr (decode (frame_bytes fr)))"

text \<open>The record of the specification's end-to-end scenario, and one that streams from a
  file.\<close>

definition uart_record :: ConfigurationRecord where
  "uart_record =
     \<lparr>device_mode = Transmit, streaming_protocol = UART, modulation = QPSK,
      carrier_frequency_hz = 915000000, sampling_frequency_hz = 2000000,
      rf_gain_db = 14, if_gain_db = 20, baseband_gain_db = 30, source_file_path = None\<rparr>"

definition file_record :: ConfigurationRecord where
  "file_record =
     uart_record\<lparr>streaming_protocol := File, source_file_path := Some ''capture.bin''\<rparr>"

text \<open>A manager that holds no port, and a port that opens but accepts only part of a
  write and never answers.\<close>

definition no_sessions :: manager where
  "no_sessions = (\<lambda>port_name. Closed)"

definition failing_port :: port_io where
  "failing_port = \<lparr>opens = True, bytes_written = 2, reply = None\<rparr>"

definition silent_port :: port_io where
  "silent_port = \<lparr>opens = True, bytes_written = 21, reply = None\<rparr>"

text \<open>A port whose device acknowledges, and a manager in which the caller holds an open
  session on \<open>COM3\<close>.\<close>

definition ack_port :: port_io where
  "ack_port = \<lparr>opens = True, bytes_written = 21, reply = Some AckReply\<rparr>"

definition caller_session :: manager where
  "caller_session = no_sessions(''COM3'' := Open)"

section \<open>The specification's domains and its validation contract\<close>

text \<open>
  The numeric fields under the names the forms give them (\<open>fc\<close> and \<open>fs\<close> for the carrier
  and sampling frequency, \<open>rfg\<close>, \<open>ifg\<close>, \<open>bbg\<close> for the three gains) and, following the
  words of section 3 of the specification, the inclusive domain of each.
\<close>

definition numeric_fields :: "string list" where
  "numeric_fields = [''fc'', ''fs'', ''rfg'', ''ifg'', ''bbg'']"

definition spec_domain :: "string \<Rightarrow> (int \<times> int) option" where
  "spec_domain f =
     map_of [(''fc'', (1000000, 6000000000)), (''fs'', (1000000, 20000000)),
             (''rfg'', (0, 47)), (''ifg'', (0, 40)), (''bbg'', (0, 62))] f"

definition in_domain :: "string \<Rightarrow> number \<Rightarrow> bool" where
  "in_domain f x =
     (case spec_domain f of
        None \<Rightarrow> True
      | Some (lo, hi) \<Rightarrow>
          (case x of Fin q \<Rightarrow> of_int lo \<le> q \<and> q \<le> of_int hi | _ \<Rightarrow> False))"

text \<open>
  The integer a form value stands for, if it stands for one: a number without fraction, or
  a text that is an optional minus sign and then digits only.
\<close>

definition int_digits :: "string \<Rightarrow> bool" where
  "int_digits ds = (ds \<noteq> [] \<and> list_all is_digit ds)"

fun int_value :: "jsval \<Rightarrow> int option" where
  "int_value (JNumber (Fin q)) = (if of_int \<lfloor>q\<rfloor> = q then Some \<lfloor>q\<rfloor> else None)"
| "int_value (JNumber _) = None"
| "int_value (JString s) =
     (case s of
        [] \<Rightarrow> None
      | c # ds \<Rightarrow>
          if c = CHR ''-'' then (if int_digits ds then Some (- int (digits_val ds)) else None)
          else if int_digits s then Some (int (digits_val s))
          else None)"
| "int_value JUndefined = None"

text \<open>
  Section 3 of the specification types the numeric fields as unsigned integers with an
  inclusive range.  A form value lies within the domain of its field when it stands for an
  integer of that range.
\<close>

definition within_domain :: "string \<Rightarrow> jsval \<Rightarrow> bool" where
  "within_domain f v =
     (case spec_domain f of
        None \<Rightarrow> True
      | Some (lo, hi) \<Rightarrow>
          (case int_value v of None \<Rightarrow> False | Some n \<Rightarrow> lo \<le> n \<and> n \<le> hi))"

text \<open>
  Section 4.1 of the specification has \<open>validate\<close> return the first violation encountered,
  with the field name and the allowed range.  Read on the main form's state, that is the
  one-entry error object below (empty when no field is out of its domain).
\<close>

definition first_violation :: "app_state \<Rightarrow> (string \<times> string) list" where
  "first_violation s =
     (case filter (\<lambda>p. \<not> in_domain (fst p) (parseFloat (get (config s) (fst p)))) ranges of
        [] \<Rightarrow> []
      | p # _ \<Rightarrow> [(fst p, ''Must be between '' @ label (snd p))])"

section \<open>Concrete states\<close>

text \<open>
  Two states of the main form that the controls can produce: the File protocol chosen in the
  select with no file picked, and both frequencies typed as 5.
\<close>

definition file_without_path :: app_state where
  "file_without_path = updateConfig ''streamingProtocol'' (JString ''file'') initial_state"

definition two_violations :: app_state where
  "two_violations =
     updateConfig ''fs'' (JString ''5'') (updateConfig ''fc'' (JString ''5'') initial_state)"

text \<open>The wizard's form with both frequencies typed as 5, and a network that is down.\<close>

definition rf_two_violations :: rf_state where
  "rf_two_violations =
     rf_handleChange ''fs'' (JString ''5'') (rf_handleChange ''fc'' (JString ''5'') rf_initial_state)"



definition rf_filled :: "string \<Rightarrow> string \<Rightarrow> string \<Rightarrow> rf_state" where
  "rf_filled fc_text fs_text rfg_text =
     rf_handleChange ''bbg'' (JString ''30'')
       (rf_handleChange ''ifg'' (JString ''20'')
         (rf_handleChange ''rfg'' (JString rfg_text)
           (rf_handleChange ''fs'' (JString fs_text)
             (rf_handleChange ''fc'' (JString fc_text) rf_initial_state))))"

definition rf_low_frequencies :: rf_state where
  "rf_low_frequencies = rf_filled ''5'' ''5'' ''14''"


section \<open>Reading decimal numerals\<close>

lemma is_digit_digit_char: "d < 10 \<Longrightarrow> is_digit (digit_char d)"
  by (simp add: is_digit_def digit_char_def)

lemma digit_val_digit_char: "d < 10 \<Longrightarrow> digit_val (digit_char d) = d"
  by (simp add: digit_val_def digit_char_def)

lemma show_nat_digits: "\<forall>c \<in> set (show_nat n). is_digit c"
proof (induction n rule: show_nat.induct)
  case (1 n)
  show ?case
  proof (cases "n < 10")
    case True
    then show ?thesis by (subst show_nat.simps) (simp add: is_digit_digit_char)
  next
    case False
    with 1 show ?thesis
      by (subst show_nat.simps) (simp add: is_digit_digit_char)
  qed
qed

lemma digits_val_snoc: "digits_val (ds @ [c]) = 10 * digits_val ds + digit_val c"
  by (simp add: digits_val_def)

lemma digits_val_show_nat: "digits_val (show_nat n) = n"
proof (induction n rule: show_nat.induct)
  case (1 n)
  show ?case
  proof (cases "n < 10")
    case True
    then show ?thesis by (subst show_nat.simps) (simp add: digits_val_def digit_val_digit_char)
  next
    case False
    with 1 have "digits_val (show_nat (n div 10)) = n div 10" by simp
    with False show ?thesis
      by (subst show_nat.simps) (simp add: digits_val_snoc digit_val_digit_char)
  qed
qed

lemma digits_val_Nil: "digits_val [] = 0"
  by (simp add: digits_val_def)

lemma show_nat_nonempty: "show_nat n \<noteq> []"
  by (subst show_nat.simps) simp

lemma digit_not_special:
  "is_digit c \<Longrightarrow> \<not> is_ws c \<and> c \<noteq> CHR ''-'' \<and> c \<noteq> CHR ''+'' \<and> c \<noteq> CHR ''I''"
  by (auto simp: is_digit_def is_ws_def)

lemma parseFloat_digits:
  assumes "ds \<noteq> []" "\<forall>c \<in> set ds. is_digit c"
  shows "parseFloat_str ds = Fin (of_nat (digits_val ds))"
    and "parseFloat_str (CHR ''-'' # ds) = Fin (- of_nat (digits_val ds))"
proof -
  from assms obtain c cs where ds: "ds = c # cs" and c: "is_digit c"
    by (cases ds) auto
  have tw: "takeWhile is_digit ds = ds" "dropWhile is_digit ds = []"
    using assms(2) by simp_all
  note sp = digit_not_special [OF c]
  have nI: "take 8 ds \<noteq> ''Infinity''" using sp by (simp add: ds)
  have d1: "dropWhile is_ws ds = ds" using sp by (simp add: ds)
  have hd: "(case ds of [] \<Rightarrow> False | c # t \<Rightarrow> c = CHR ''-'') = False"
    "(case ds of [] \<Rightarrow> [] | c # t \<Rightarrow> if c = CHR ''-'' \<or> c = CHR ''+'' then t else ds) = ds"
    using sp by (simp_all add: ds)
  show "parseFloat_str ds = Fin (of_nat (digits_val ds))"
    unfolding parseFloat_str_def d1 hd Let_def tw
    using nI assms(1) by (simp add: exponent_part_def pow10_def digits_val_Nil)
  have d2: "dropWhile is_ws (CHR ''-'' # ds) = CHR ''-'' # ds" by (simp add: is_ws_def)
  show "parseFloat_str (CHR ''-'' # ds) = Fin (- of_nat (digits_val ds))"
    unfolding parseFloat_str_def d2 Let_def list.case
    using nI assms(1) by (simp add: tw exponent_part_def pow10_def digits_val_Nil)
qed

lemma parseFloat_show_nat: "parseFloat_str (show_nat n) = Fin (of_nat n)"
  using parseFloat_digits(1) [OF show_nat_nonempty show_nat_digits, of n]
  by (simp add: digits_val_show_nat)

lemma parseFloat_show_int: "parseFloat_str (show_int i) = Fin (of_int i)"
proof (cases "i < 0")
  case True
  then show ?thesis
    using parseFloat_digits(2) [OF show_nat_nonempty show_nat_digits, of "nat (- i)"]
    by (simp add: show_int_def digits_val_show_nat)
next
  case False
  then show ?thesis
    by (simp add: show_int_def parseFloat_show_nat)
qed



section \<open>The validators\<close>

lemma validateField_state: "snd (validateField f v s) = s"
  by (simp add: validateField_def Let_def split: option.split)

lemma validateField_indep: "fst (validateField f v s) = fst (validateField f v s')"
  by (simp add: validateField_def Let_def split: option.split)

lemma rf_validateField_state: "snd (rf_validateField f v t) = t"
  by (simp add: rf_validateField_def Let_def split: option.split)

lemma rf_validateField_indep: "fst (rf_validateField f v t) = fst (rf_validateField f v t')"
  by (simp add: rf_validateField_def Let_def split: option.split)

lemma spec_domain_cases:
  assumes "spec_domain f = Some (lo, hi)"
  shows "(f = ''fc'' \<and> lo = 1000000 \<and> hi = 6000000000)
       \<or> (f = ''fs'' \<and> lo = 1000000 \<and> hi = 20000000)
       \<or> (f = ''rfg'' \<and> lo = 0 \<and> hi = 47)
       \<or> (f = ''ifg'' \<and> lo = 0 \<and> hi = 40)
       \<or> (f = ''bbg'' \<and> lo = 0 \<and> hi = 62)"
  using assms by (auto simp: spec_domain_def split: if_splits)

lemma ranges_lookup:
  "spec_domain f = Some (lo, hi) \<Longrightarrow>
     \<exists>rng. map_of ranges f = Some rng \<and> rmin rng = of_int lo \<and> rmax rng = of_int hi"
  by (drule spec_domain_cases) (auto simp: ranges_def)

lemma rules_lookup:
  "spec_domain f = Some (lo, hi) \<Longrightarrow>
     \<exists>rl. map_of validationRules f = Some rl \<and> rule_min rl = of_int lo \<and> rule_max rl = of_int hi"
  by (drule spec_domain_cases) (auto simp: validationRules_def)

lemma validateField_in_domain:
  assumes "spec_domain f = Some (lo, hi)"
  shows "fst (validateField f v s) = in_domain f (parseFloat v)"
proof -
  from ranges_lookup [OF assms] obtain rng where
    r: "map_of ranges f = Some rng" "rmin rng = of_int lo" "rmax rng = of_int hi" by blast
  show ?thesis
    by (cases "parseFloat v") (simp_all add: validateField_def in_domain_def assms r Let_def)
qed

lemma rf_validateField_in_domain:
  assumes "spec_domain f = Some (lo, hi)" "truthy v"
  shows "(fst (rf_validateField f v t) = None) = in_domain f (parseFloat v)"
proof -
  from rules_lookup [OF assms(1)] obtain rl where
    r: "map_of validationRules f = Some rl" "rule_min rl = of_int lo" "rule_max rl = of_int hi"
    by blast
  show ?thesis
    by (cases "parseFloat v")
       (auto simp add: rf_validateField_def in_domain_def assms r Let_def)
qed

lemma show_int_truthy: "truthy (JString (show_int n))"
  by (simp add: show_int_def show_nat_nonempty)

lemma in_domain_int:
  "spec_domain f = Some (lo, hi) \<Longrightarrow> in_domain f (Fin (of_int n)) = (lo \<le> n \<and> n \<le> hi)"
  by (simp add: in_domain_def)


lemma update_fresh: "k \<notin> fst ` set al \<Longrightarrow> AList.update k v al = al @ [(k, v)]"
  by (induction al) auto

lemma validateAll_loop_eq:
  "distinct (map fst rs) \<Longrightarrow> fst ` set acc \<inter> fst ` set rs = {} \<Longrightarrow>
   validateAll_loop rs acc s =
     (acc @ map (\<lambda>p. (fst p, ''Must be between '' @ label (snd p)))
              (filter (\<lambda>p. \<not> fst (validateField (fst p) (get (config s) (fst p)) s)) rs), s)"
proof (induction rs arbitrary: acc)
  case Nil
  then show ?case by simp
next
  case (Cons p rs)
  obtain f rng where p: "p = (f, rng)" by (cases p)
  define ok where "ok = fst (validateField f (get (config s) f) s)"
  have v: "validateField f (get (config s) f) s = (ok, s)"
    by (simp add: ok_def prod_eq_iff validateField_state)
  from Cons.prems have fresh: "f \<notin> fst ` set acc" and d: "distinct (map fst rs)"
    and nf: "f \<notin> fst ` set rs"
    by (auto simp: p)
  show ?case
  proof (cases ok)
    case True
    from Cons.prems have "fst ` set acc \<inter> fst ` set rs = {}" by (auto simp: p)
    from Cons.IH [OF d this] True show ?thesis
      by (simp add: p v)
  next
    case False
    let ?acc = "acc @ [(f, ''Must be between '' @ label rng)]"
    from Cons.prems nf have "fst ` set ?acc \<inter> fst ` set rs = {}" by (auto simp: p)
    from Cons.IH [OF d this] False show ?thesis
      by (simp add: p v update_fresh [OF fresh])
  qed
qed

lemma validateAll_eq:
  "validateAll s =
     (filter (\<lambda>p. \<not> fst (validateField (fst p) (get (config s) (fst p)) s)) ranges = [],
      s\<lparr>errors := map (\<lambda>p. (fst p, ''Must be between '' @ label (snd p)))
              (filter (\<lambda>p. \<not> fst (validateField (fst p) (get (config s) (fst p)) s)) ranges)\<rparr>)"
proof -
  have "distinct (map fst ranges)" by (simp add: ranges_def)
  from validateAll_loop_eq [OF this, of "[]" s] show ?thesis
    by (simp add: validateAll_def)
qed

lemma rf_submit_loop_eq:
  "distinct (map fst rs) \<Longrightarrow> fst ` set acc \<inter> fst ` set rs = {} \<Longrightarrow>
   rf_submit_loop rs acc t =
     (acc @ concat (map (\<lambda>p. case fst (rf_validateField (fst p) (get (formData t) (fst p)) t) of
                               None \<Rightarrow> [] | Some e \<Rightarrow> [(fst p, e)]) rs), t)"
proof (induction rs arbitrary: acc)
  case Nil
  then show ?case by simp
next
  case (Cons p rs)
  obtain f rl where p: "p = (f, rl)" by (cases p)
  define er where "er = fst (rf_validateField f (get (formData t) f) t)"
  have v: "rf_validateField f (get (formData t) f) t = (er, t)"
    by (simp add: er_def prod_eq_iff rf_validateField_state)
  from Cons.prems have fresh: "f \<notin> fst ` set acc" and d: "distinct (map fst rs)"
    and nf: "f \<notin> fst ` set rs"
    by (auto simp: p)
  show ?case
  proof (cases er)
    case None
    from Cons.prems have "fst ` set acc \<inter> fst ` set rs = {}" by (auto simp: p)
    from Cons.IH [OF d this] None show ?thesis
      by (simp add: p v)
  next
    case (Some e)
    have ne: "e \<noteq> []"
      using Some v by (auto simp: rf_validateField_def Let_def split: if_splits option.splits)
    let ?acc = "acc @ [(f, e)]"
    from Cons.prems nf have "fst ` set ?acc \<inter> fst ` set rs = {}" by (auto simp: p)
    from Cons.IH [OF d this] Some ne show ?thesis
      by (simp add: p v update_fresh [OF fresh])
  qed
qed


lemma ranges_member:
  "spec_domain f = Some (lo, hi) \<Longrightarrow> f \<in> fst ` set ranges \<and> f \<in> fst ` set validationRules"
  by (drule spec_domain_cases) (auto simp: ranges_def validationRules_def)

lemma validateAll_errors_keys:
  "(f \<in> fst ` set (errors (snd (validateAll s)))) =
     (f \<in> fst ` set ranges \<and> \<not> fst (validateField f (get (config s) f) s))"
  by (force simp: validateAll_eq image_iff)

lemma rf_handleSubmit_eq:
  "rf_handleSubmit t =
     (let newErrors = concat (map (\<lambda>p. case fst (rf_validateField (fst p) (get (formData t) (fst p)) t) of
                               None \<Rightarrow> [] | Some e \<Rightarrow> [(fst p, e)]) validationRules)
      in if newErrors \<noteq> [] then
            (None, t\<lparr>rf_errors := map (\<lambda>kv. (fst kv, Some (snd kv))) newErrors,
                      touched := [(''fc'', True), (''fs'', True), (''rfg'', True),
                                  (''ifg'', True), (''bbg'', True)]\<rparr>)
          else
            (Some [(''modulation'', get (formData t) ''modulation''),
                   (''fc'', JNumber (parseFloat (get (formData t) ''fc''))),
                   (''fs'', JNumber (parseFloat (get (formData t) ''fs''))),
                   (''rfg'', JNumber (parseFloat (get (formData t) ''rfg''))),
                   (''ifg'', JNumber (parseFloat (get (formData t) ''ifg''))),
                   (''bbg'', JNumber (parseFloat (get (formData t) ''bbg'')))], t))"
proof -
  have "distinct (map fst validationRules)" by (simp add: validationRules_def)
  from rf_submit_loop_eq [OF this, of "[]" t] show ?thesis
    by (simp add: rf_handleSubmit_def Let_def)
qed

lemma rf_newErrors_keys:
  "(f \<in> fst ` set (concat (map (\<lambda>p. case fst (rf_validateField (fst p) (get (formData t) (fst p)) t) of
                               None \<Rightarrow> [] | Some e \<Rightarrow> [(fst p, e)]) rs))) =
     (f \<in> fst ` set rs \<and> fst (rf_validateField f (get (formData t) f) t) \<noteq> None)"
  by (induction rs) (auto split: option.splits)

lemma rf_handleSubmit_rejected:
  assumes "f \<in> fst ` set validationRules" "fst (rf_validateField f (get (formData t) f) t) \<noteq> None"
  shows "fst (rf_handleSubmit t) = None"
    and "formData (snd (rf_handleSubmit t)) = formData t"
    and "f \<in> fst ` set (rf_errors (snd (rf_handleSubmit t)))"
proof -
  let ?new = "concat (map (\<lambda>p. case fst (rf_validateField (fst p) (get (formData t) (fst p)) t) of
                               None \<Rightarrow> [] | Some e \<Rightarrow> [(fst p, e)]) validationRules)"
  from assms have k: "f \<in> fst ` set ?new" by (simp only: rf_newErrors_keys) simp
  then have ne: "?new \<noteq> []" by (cases ?new) simp_all
  show "fst (rf_handleSubmit t) = None" "formData (snd (rf_handleSubmit t)) = formData t"
    using ne by (simp_all add: rf_handleSubmit_eq Let_def)
  have "fst ` set (map (\<lambda>kv. (fst kv, Some (snd kv))) ?new) = fst ` set ?new"
    by (simp add: image_image)
  with k ne show "f \<in> fst ` set (rf_errors (snd (rf_handleSubmit t)))"
    by (simp add: rf_handleSubmit_eq Let_def del: set_map set_concat)
qed

text \<open>
  Claim C1.  For each of the five numeric fields, both range validators (\<open>validateField\<close> of
  the main form and of the wizard) accept an integer value exactly when it lies in the
  field's inclusive domain, whether the value arrives as a number or as its decimal text; a
  rejected value leaves an error entry under the field's name in the main form's
  \<open>validateAll\<close> and in the wizard's \<open>handleSubmit\<close>.
\<close>

theorem validateField_accepts_exactly_domain:
  assumes "spec_domain f = Some (lo, hi)"
  shows "fst (validateField f (JNumber (Fin (of_int n))) s) = (lo \<le> n \<and> n \<le> hi)
       \<and> fst (validateField f (JString (show_int n)) s) = (lo \<le> n \<and> n \<le> hi)
       \<and> (fst (rf_validateField f (JString (show_int n)) t) = None) = (lo \<le> n \<and> n \<le> hi)
       \<and> (get (config s) f = JNumber (Fin (of_int n)) \<or> get (config s) f = JString (show_int n)
            \<longrightarrow> (f \<in> fst ` set (errors (snd (validateAll s)))) = (\<not> (lo \<le> n \<and> n \<le> hi)))
       \<and> (get (formData t) f = JString (show_int n) \<and> \<not> (lo \<le> n \<and> n \<le> hi)
            \<longrightarrow> f \<in> fst ` set (rf_errors (snd (rf_handleSubmit t))))"
proof -
  note dom = in_domain_int [OF assms, of n]
  have a: "fst (validateField f (JNumber (Fin (of_int n))) s) = (lo \<le> n \<and> n \<le> hi)"
    by (simp add: validateField_in_domain [OF assms] dom)
  have b: "fst (validateField f (JString (show_int n)) s) = (lo \<le> n \<and> n \<le> hi)"
    by (simp add: validateField_in_domain [OF assms] parseFloat_show_int dom)
  have c: "(fst (rf_validateField f (JString (show_int n)) t) = None) = (lo \<le> n \<and> n \<le> hi)"
    by (simp add: rf_validateField_in_domain [OF assms show_int_truthy] parseFloat_show_int dom)
  note mem = ranges_member [OF assms]
  have d: "get (config s) f = JNumber (Fin (of_int n)) \<or> get (config s) f = JString (show_int n)
            \<longrightarrow> (f \<in> fst ` set (errors (snd (validateAll s)))) = (\<not> (lo \<le> n \<and> n \<le> hi))"
    using a b mem by (auto simp: validateAll_errors_keys)
  have e: "get (formData t) f = JString (show_int n) \<and> \<not> (lo \<le> n \<and> n \<le> hi)
            \<longrightarrow> f \<in> fst ` set (rf_errors (snd (rf_handleSubmit t)))"
  proof (intro impI, elim conjE)
    assume g: "get (formData t) f = JString (show_int n)" and out: "\<not> (lo \<le> n \<and> n \<le> hi)"
    from c out have "fst (rf_validateField f (get (formData t) f) t) \<noteq> None" by (simp add: g)
    with mem show "f \<in> fst ` set (rf_errors (snd (rf_handleSubmit t)))"
      by (intro rf_handleSubmit_rejected(3)) simp_all
  qed
  from a b c d e show ?thesis by blast
qed


section \<open>Saving, and what validation reports\<close>






lemma get_two_violations:
  "get (config two_violations) ''fc'' = JString ''5''"
  "get (config two_violations) ''fs'' = JString ''5''"
  "get (config two_violations) ''rfg'' = JNumber (Fin 14)"
  "get (config two_violations) ''ifg'' = JNumber (Fin 20)"
  "get (config two_violations) ''bbg'' = JNumber (Fin 30)"
  by (simp_all add: two_violations_def updateConfig_def initial_state_def initial_config_def
        object_of_def get_def)

lemma parseFloat_5: "parseFloat_str ''5'' = Fin 5"
  by (simp add: parseFloat_str_def is_ws_def is_digit_def Let_def exponent_part_def pow10_def
        digits_val_def digit_val_def)

lemma get_rf_two_violations:
  "get (formData rf_two_violations) ''fc'' = JString ''5''"
  "get (formData rf_two_violations) ''fs'' = JString ''5''"
  "get (formData rf_two_violations) ''rfg'' = JString []"
  "get (formData rf_two_violations) ''ifg'' = JString []"
  "get (formData rf_two_violations) ''bbg'' = JString []"
  by (simp_all add: rf_two_violations_def rf_handleChange_def rf_initial_state_def
        object_of_def get_def Let_def)

lemma show_int_5: "show_int 5 = ''5''"
  by code_simp

theorem validateField_accepts_exactly_domain_witness:
  "spec_domain ''fc'' = Some (1000000, 6000000000)
   \<and> fst (validateField ''fc'' (JNumber (Fin 1000000)) initial_state)
   \<and> fst (validateField ''fc'' (JString (show_int 6000000000)) initial_state)
   \<and> \<not> fst (validateField ''fc'' (JNumber (Fin 999999)) initial_state)
   \<and> fst (rf_validateField ''fc'' (JString (show_int 6000000001)) rf_initial_state) \<noteq> None
   \<and> get (config two_violations) ''fc'' = JString (show_int 5)
   \<and> ''fc'' \<in> fst ` set (errors (snd (validateAll two_violations)))
   \<and> get (formData rf_two_violations) ''fc'' = JString (show_int 5)
   \<and> ''fc'' \<in> fst ` set (rf_errors (snd (rf_handleSubmit rf_two_violations)))"
proof -
  have h: "spec_domain ''fc'' = Some (1000000, 6000000000)"
    by (simp add: spec_domain_def)
  have g: "get (config two_violations) ''fc'' = JString (show_int 5)"
    "get (formData rf_two_violations) ''fc'' = JString (show_int 5)"
    by (simp_all add: get_two_violations get_rf_two_violations show_int_5)
  show ?thesis
    using h g
      validateField_accepts_exactly_domain [OF h, where n = 1000000 and s = initial_state]
      validateField_accepts_exactly_domain [OF h, where n = 6000000000 and s = initial_state]
      validateField_accepts_exactly_domain [OF h, where n = 999999 and s = initial_state]
      validateField_accepts_exactly_domain [OF h, where n = 6000000001 and t = rf_initial_state]
      validateField_accepts_exactly_domain
        [OF h, where n = 5 and s = two_violations and t = rf_two_violations]
    by simp
qed

lemma first_violation_two: "first_violation two_violations = [(''fc'', ''Must be between 1 MHz - 6 GHz'')]"
  by (simp add: first_violation_def ranges_def get_two_violations parseFloat_5 in_domain_def
        spec_domain_def)

lemma validateAll_errors_eq:
  "errors (snd (validateAll s)) =
     map (\<lambda>p. (fst p, ''Must be between '' @ label (snd p)))
       (filter (\<lambda>p. \<not> in_domain (fst p) (parseFloat (get (config s) (fst p)))) ranges)"
proof -
  have "\<And>p. p \<in> set ranges \<Longrightarrow>
          fst (validateField (fst p) (get (config s) (fst p)) s)
            = in_domain (fst p) (parseFloat (get (config s) (fst p)))"
  proof -
    fix p assume "p \<in> set ranges"
    then have "\<exists>lo hi. spec_domain (fst p) = Some (lo, hi)"
      by (auto simp: ranges_def spec_domain_def)
    then show "fst (validateField (fst p) (get (config s) (fst p)) s)
            = in_domain (fst p) (parseFloat (get (config s) (fst p)))"
      using validateField_in_domain by blast
  qed
  then have "filter (\<lambda>p. \<not> fst (validateField (fst p) (get (config s) (fst p)) s)) ranges
           = filter (\<lambda>p. \<not> in_domain (fst p) (parseFloat (get (config s) (fst p)))) ranges"
    by (intro filter_cong) simp_all
  then show ?thesis by (simp add: validateAll_eq)
qed

text \<open>
  Claim C5, as stated, fails: with two fields out of their domains the main form's
  validation reports both, not the first violation alone.
\<close>

theorem validateAll_not_first_violation_only:
  "errors (snd (validateAll two_violations)) \<noteq> first_violation two_violations
   \<and> errors (snd (validateAll two_violations)) =
       [(''fc'', ''Must be between 1 MHz - 6 GHz''), (''fs'', ''Must be between 1 MHz - 20 MHz'')]"
  by (simp add: first_violation_two validateAll_errors_eq ranges_def get_two_violations
        parseFloat_5 in_domain_def spec_domain_def)


lemma rf_newErrors_fields:
  "map fst (concat (map (\<lambda>p. case fst (rf_validateField (fst p) (get (formData t) (fst p)) t) of
                               None \<Rightarrow> [] | Some e \<Rightarrow> [(fst p, e)]) rs)) =
     filter (\<lambda>f. fst (rf_validateField f (get (formData t) f) t) \<noteq> None) (map fst rs)"
  by (induction rs) (auto split: option.splits)

lemma rf_handleSubmit_error_fields:
  assumes "fst (rf_handleSubmit t) = None"
  shows "map fst (rf_errors (snd (rf_handleSubmit t))) =
           filter (\<lambda>f. fst (rf_validateField f (get (formData t) f) t) \<noteq> None) numeric_fields"
proof -
  let ?new = "concat (map (\<lambda>p. case fst (rf_validateField (fst p) (get (formData t) (fst p)) t) of
                               None \<Rightarrow> [] | Some e \<Rightarrow> [(fst p, e)]) validationRules)"
  from assms have ne: "?new \<noteq> []"
    by (auto simp: rf_handleSubmit_eq Let_def split: if_splits)
  have nf: "map fst validationRules = numeric_fields"
    by (simp add: validationRules_def numeric_fields_def)
  have "map fst (rf_errors (snd (rf_handleSubmit t))) = map fst ?new"
    using ne by (simp add: rf_handleSubmit_eq Let_def comp_def del: map_concat)
  then show ?thesis by (simp only: rf_newErrors_fields nf)
qed

lemma rf_validateField_number:
  assumes "map_of validationRules f = Some rl" "truthy v" "parseFloat v = Fin q"
  shows "fst (rf_validateField f v t) =
           (if q < rule_min rl then
              Some (''Value too low. Minimum: '' @ formatValue (rule_min rl) (rule_unit rl))
            else if rule_max rl < q then
              Some (''Value too high. Maximum: '' @ formatValue (rule_max rl) (rule_unit rl))
            else None)"
  using assms by (simp add: rf_validateField_def Let_def)

lemma digit_char_1: "digit_char (Suc 0) = CHR ''1''"
  unfolding digit_char_def by code_simp

lemma formatValue_MHz: "formatValue 1000000 ''Hz'' = ''1 MHz''"
  by (simp add: formatValue_def number_text_def Let_def show_nat.simps digit_char_1)

text \<open>
  Claim C7.  The field validators are pure and deterministic: run in any state of their
  component they leave that state as it was, and their result depends on the field name and
  the value alone, not on the state they are run in.
\<close>

theorem validateField_pure:
  "snd (validateField f v s) = s
   \<and> fst (validateField f v s) = fst (validateField f v s')
   \<and> snd (rf_validateField f v t) = t
   \<and> fst (rf_validateField f v t) = fst (rf_validateField f v t')"
  using validateField_state [of f v s] validateField_indep [of f v s s']
    rf_validateField_state [of f v t] rf_validateField_indep [of f v t t']
  by simp


lemma parseFloat_fraction: "parseFloat_str ''14.5'' = Fin (29 / 2)"
  by (simp add: parseFloat_str_def is_ws_def is_digit_def Let_def exponent_part_def pow10_def
        digits_val_def digit_val_def)

lemma parseFloat_prefix: "parseFloat_str ''915000000abc'' = Fin 915000000"
  by (simp add: parseFloat_str_def is_ws_def is_digit_def Let_def exponent_part_def pow10_def
        digits_val_def digit_val_def)

lemma not_a_numeral: "c \<in> set str \<Longrightarrow> \<not> is_digit c \<Longrightarrow> str \<noteq> show_nat n"
  using show_nat_digits [of n] by auto

text \<open>
  Claim C9.  Both field validators accept values that are not unsigned-integer numerals: the
  fractional gain 14.5, as text or as a number, and the text \<open>915000000abc\<close>, of which
  \<open>parseFloat\<close> reads the numeric prefix.  Neither text is the decimal numeral of a
  natural number.
\<close>

theorem validateField_accepts_non_integers:
  "fst (validateField ''rfg'' (JString ''14.5'') s)
   \<and> fst (validateField ''rfg'' (JNumber (Fin (29 / 2))) s)
   \<and> fst (validateField ''fc'' (JString ''915000000abc'') s)
   \<and> fst (rf_validateField ''rfg'' (JString ''14.5'') t) = None
   \<and> fst (rf_validateField ''fc'' (JString ''915000000abc'') t) = None
   \<and> (\<forall>n. ''14.5'' \<noteq> show_nat n)
   \<and> (\<forall>n. ''915000000abc'' \<noteq> show_nat n)"
proof -
  have a: "fst (validateField ''rfg'' (JString ''14.5'') s)"
    by (simp add: validateField_def ranges_def parseFloat_fraction)
  have b: "fst (validateField ''rfg'' (JNumber (Fin (29 / 2))) s)"
    by (simp add: validateField_def ranges_def)
  have c: "fst (validateField ''fc'' (JString ''915000000abc'') s)"
    by (simp add: validateField_def ranges_def parseFloat_prefix)
  have d: "fst (rf_validateField ''rfg'' (JString ''14.5'') t) = None"
    by (simp add: rf_validateField_def validationRules_def parseFloat_fraction)
  have e: "fst (rf_validateField ''fc'' (JString ''915000000abc'') t) = None"
    by (simp add: rf_validateField_def validationRules_def parseFloat_prefix)
  have f: "\<forall>n. ''14.5'' \<noteq> show_nat n"
    using not_a_numeral [of "CHR ''.''" "''14.5''"] by (simp add: is_digit_def)
  have g: "\<forall>n. ''915000000abc'' \<noteq> show_nat n"
    using not_a_numeral [of "CHR ''a''" "''915000000abc''"] by (simp add: is_digit_def)
  from a b c d e f g show ?thesis by blast
qed

lemma reset_config_eq: "reset_config = AList.delete ''port'' initial_config"
  by (simp add: reset_config_def initial_config_def object_of_def)

text \<open>
  Claim C10.  After Reset to Defaults the configuration has no \<open>port\<close> key, so
  \<open>config.port\<close> reads as \<open>undefined\<close> where the initial state had the empty string, and
  a port name entered before is gone; the configuration is otherwise the initial one, and
  the errors are cleared.
\<close>

theorem reset_omits_port:
  "get (config (resetToDefaults s)) ''port'' = JUndefined
   \<and> map_of (config (resetToDefaults s)) ''port'' = None
   \<and> get (config initial_state) ''port'' = JString []
   \<and> config (resetToDefaults s) = AList.delete ''port'' (config initial_state)
   \<and> get (config (updateConfig ''port'' (JString p) s)) ''port'' = JString p
   \<and> get (config (resetToDefaults (updateConfig ''port'' (JString p) s))) ''port'' = JUndefined
   \<and> errors (resetToDefaults s) = []"
  by (simp add: resetToDefaults_def reset_config_eq initial_state_def get_def
        updateConfig_def AList.update_conv' AList.delete_conv' )
     (simp add: initial_config_def object_of_def)

text \<open>
  Claim C8.  \<open>handleBlur\<close> is not bound anywhere in \<open>App.jsx\<close>, so the \<open>onBlur\<close> handler
  of each of the five numeric inputs of the main form throws a ReferenceError and calls
  nothing.
\<close>

theorem onBlur_raises_ReferenceError:
  "''handleBlur'' \<notin> set app_scope
   \<and> (\<forall>f \<in> set blur_inputs. onBlur f = Inl (ReferenceError ''handleBlur''))"
  by (simp add: onBlur_def resolve_def app_scope_def)

theorem onBlur_raises_ReferenceError_witness:
  "''fc'' \<in> set blur_inputs \<and> onBlur ''fc'' = Inl (ReferenceError ''handleBlur'')"
  using onBlur_raises_ReferenceError by (simp add: blur_inputs_def)

lemma get_file_without_path:
  "get (config file_without_path) ''streamingProtocol'' = JString ''file''"
  "get (config file_without_path) ''filePath'' = JString []"
  "get (config file_without_path) ''fc'' = JNumber (Fin 915000000)"
  "get (config file_without_path) ''fs'' = JNumber (Fin 2000000)"
  "get (config file_without_path) ''rfg'' = JNumber (Fin 14)"
  "get (config file_without_path) ''ifg'' = JNumber (Fin 20)"
  "get (config file_without_path) ''bbg'' = JNumber (Fin 30)"
  by (simp_all add: file_without_path_def updateConfig_def initial_state_def initial_config_def
        object_of_def get_def)

text \<open>
  Claim C3 at the main form.  With the File protocol chosen and the file path empty,
  \<open>validateAll\<close> finds no error and \<open>handleSubmit\<close> posts the configuration, whereas
  the wizard's \<open>handleProtocolSelect\<close> does not go on with the File protocol until a file
  is chosen.
\<close>

theorem file_protocol_without_path_is_saved:
  "get (config file_without_path) ''streamingProtocol'' = JString ''file''
   \<and> get (config file_without_path) ''filePath'' = JString []
   \<and> fst (validateAll file_without_path)
   \<and> errors (snd (validateAll file_without_path)) = []
   \<and> fst (handleSubmit fetch file_without_path) =
        [\<lparr>url = ''/api/config'', http_method = ''POST'', body = config file_without_path\<rparr>]
   \<and> handleProtocolSelect ''file'' = []"
proof -
  have e: "errors (snd (validateAll file_without_path)) = []"
    by (simp add: validateAll_errors_eq ranges_def get_file_without_path in_domain_def
          spec_domain_def)
  have v: "fst (validateAll file_without_path)"
    using e by (simp add: validateAll_eq)
  have h: "fst (handleSubmit fetch file_without_path) =
        [\<lparr>url = ''/api/config'', http_method = ''POST'', body = config file_without_path\<rparr>]"
    using v by (cases "validateAll file_without_path") (simp add: handleSubmit_def Let_def)
  from e v h show ?thesis
    by (simp add: get_file_without_path handleProtocolSelect_def)
qed

section \<open>Big-endian bytes\<close>

lemma be_bytes_Suc: "be_bytes (Suc n) w = ucast (drop_bit (8 * n) w) # be_bytes n w"
  by (simp add: be_bytes_def)

lemma byte_step:
  fixes w :: "'a::len word"
  shows "or (push_bit m (ucast (ucast (drop_bit m w) :: 8 word))) (take_bit m w) = take_bit (m + 8) w"
proof (rule bit_word_eqI)
  fix k assume k: "k < LENGTH('a)"
  show "bit (or (push_bit m (ucast (ucast (drop_bit m w) :: 8 word))) (take_bit m w)) k
      = bit (take_bit (m + 8) w) k"
  proof (cases "k < m")
    case True
    then show ?thesis by (simp add: bit_simps)
  next
    case False
    then have "m + (k - m) = k" by simp
    with False k show ?thesis by (auto simp: bit_simps)
  qed
qed

lemma foldl_be_bytes:
  fixes w :: "'a::len word"
  shows "foldl (\<lambda>acc b. or (push_bit 8 acc) (ucast b)) acc (be_bytes n w)
       = or (push_bit (8 * n) acc) (take_bit (8 * n) w)"
proof (induction n arbitrary: acc)
  case 0
  show ?case by (simp add: be_bytes_def)
next
  case (Suc n)
  have "or (push_bit (8 * n) (or (push_bit 8 acc) (ucast (ucast (drop_bit (8 * n) w) :: 8 word))))
           (take_bit (8 * n) w)
      = or (push_bit (8 * n + 8) acc)
           (or (push_bit (8 * n) (ucast (ucast (drop_bit (8 * n) w) :: 8 word))) (take_bit (8 * n) w))"
    by (simp add: push_bit_or push_bit_add or.assoc add.commute)
  then show ?case
    by (simp add: be_bytes_Suc Suc.IH byte_step add.commute)
qed

lemma of_be_bytes_take_bit:
  fixes w :: "'a::len word"
  shows "(of_be_bytes (be_bytes n w) :: 'a word) = take_bit (8 * n) w"
  by (simp add: of_be_bytes_def foldl_be_bytes)

lemma of_be_bytes_2: "of_be_bytes (be_bytes 2 w) = (w :: 16 word)"
  by (simp add: of_be_bytes_take_bit take_bit_word_eq_self)

lemma of_be_bytes_4: "of_be_bytes (be_bytes 4 w) = (w :: 32 word)"
  by (simp add: of_be_bytes_take_bit take_bit_word_eq_self)

lemma of_be_bytes_8: "of_be_bytes (be_bytes 8 w) = (w :: 64 word)"
  by (simp add: of_be_bytes_take_bit take_bit_word_eq_self)

lemma length_be_bytes: "length (be_bytes n w) = n"
  by (simp add: be_bytes_def)


section \<open>The frame round trip\<close>

lemma length_payload: "length (payload r) = 19"
  by (simp add: payload_def length_be_bytes)

lemma mode_roundtrip: "mode_of_byte (mode_byte m) = Some m"
  by (cases m) (simp_all add: mode_of_byte_def mode_byte_def)

lemma protocol_roundtrip: "protocol_of_byte (protocol_byte p) = Some p"
  by (cases p) (simp_all add: protocol_of_byte_def protocol_byte_def)

lemma modulation_roundtrip: "modulation_of_byte (modulation_byte m) = Some m"
  by (cases m) (simp_all add: modulation_of_byte_def modulation_byte_def)

lemma decode_payload:
  "decode (payload r @ be_bytes 2 (crc16_ccitt (payload r))) = Inr (r\<lparr>source_file_path := None\<rparr>)"
proof -
  let ?bs = "payload r @ be_bytes 2 (crc16_ccitt (payload r))"
  have len: "length ?bs = 21" by (simp add: length_payload length_be_bytes)
  have tk: "take 19 ?bs = payload r" "drop 19 ?bs = be_bytes 2 (crc16_ccitt (payload r))"
    by (simp_all add: length_payload)
  have hd: "?bs ! 0 = frame_version" "?bs ! 1 = mode_byte (device_mode r)"
    "?bs ! 2 = protocol_byte (streaming_protocol r)" "?bs ! 3 = modulation_byte (modulation r)"
    by (simp_all add: payload_def)
  have fc: "take 8 (drop 4 ?bs) = be_bytes 8 (carrier_frequency_hz r)"
    by (simp add: payload_def length_be_bytes)
  have fs: "take 4 (drop 12 ?bs) = be_bytes 4 (sampling_frequency_hz r)"
    by (simp add: payload_def length_be_bytes)
  have g: "?bs ! 16 = rf_gain_db r" "?bs ! 17 = if_gain_db r" "?bs ! 18 = baseband_gain_db r"
    by (simp_all add: payload_def nth_append length_be_bytes)
  show ?thesis
    unfolding decode_def len tk hd fc fs g
    by (simp add: of_be_bytes_2 of_be_bytes_4 of_be_bytes_8 mode_roundtrip protocol_roundtrip
          modulation_roundtrip)
qed

text \<open>
  Claim C2, amended.  For every valid record, decoding its encoding succeeds and returns
  the record without its file path; it returns the record itself whenever the record
  carries no file path.
\<close>

theorem decode_encode_drops_file_path:
  assumes "validate r = Inr ()"
  shows "decode_encode r = Inr (Inr (r\<lparr>source_file_path := None\<rparr>))
       \<and> (source_file_path r = None \<longrightarrow> decode_encode r = Inr (Inr r))"
  using assms by (simp add: decode_encode_def encode_def decode_payload)

lemma validate_uart_record: "validate uart_record = Inr ()"
  by (simp add: validate_def uart_record_def)

lemma validate_file_record: "validate file_record = Inr ()"
  by (simp add: validate_def uart_record_def file_record_def)

theorem decode_encode_drops_file_path_witness:
  "validate uart_record = Inr () \<and> source_file_path uart_record = None
   \<and> decode_encode uart_record = Inr (Inr uart_record)"
  using validate_uart_record decode_encode_drops_file_path [OF validate_uart_record]
  by (simp add: uart_record_def)

text \<open>
  Claim C2, as stated, fails: a valid record that streams from a file does not come back
  from its frame, and no decoder could return it, since a second valid record with another
  path has the same encoding.
\<close>

theorem decode_encode_loses_file_path:
  "validate file_record = Inr ()
   \<and> decode_encode file_record \<noteq> Inr (Inr file_record)
   \<and> encode file_record = encode (file_record\<lparr>source_file_path := Some ''other.bin''\<rparr>)
   \<and> validate (file_record\<lparr>source_file_path := Some ''other.bin''\<rparr>) = Inr ()"
proof -
  have "decode_encode file_record = Inr (Inr (file_record\<lparr>source_file_path := None\<rparr>))"
    using validate_file_record by (simp add: decode_encode_def encode_def decode_payload)
  moreover have "file_record\<lparr>source_file_path := None\<rparr> \<noteq> file_record"
    by (simp add: file_record_def uart_record_def)
  moreover have "encode file_record = encode (file_record\<lparr>source_file_path := Some ''other.bin''\<rparr>)"
    by (simp add: encode_def validate_def payload_def file_record_def uart_record_def)
  moreover have "validate (file_record\<lparr>source_file_path := Some ''other.bin''\<rparr>) = Inr ()"
    by (simp add: validate_def uart_record_def file_record_def)
  ultimately show ?thesis using validate_file_record by simp
qed

section \<open>Port release\<close>

lemma close_Closed: "m p = Closed \<Longrightarrow> close (m(p := st)) p = m"
  by (auto simp: close_def)

lemma exchange_own: "m p = Closed \<Longrightarrow> snd (exchange io (m(p := st)) p frame False) = m"
  by (auto simp: exchange_def Let_def close_def split: option.split)

lemma send_Closed: "m p = Closed \<Longrightarrow> snd (send io m p frame held) = m"
  by (auto simp: send_def Let_def exchange_own)

lemma send_other: "q \<noteq> p \<Longrightarrow> snd (send io m p frame held) q = m q"
  by (auto simp: send_def exchange_def Let_def close_def split: option.split)

lemma probe_state: "snd (probe io m p) = m"
  by (auto simp: probe_def Let_def close_def)

section \<open>Integer values\<close>

lemma int_value_parseFloat:
  assumes "int_value v = Some n"
  shows "parseFloat v = Fin (of_int n)"
proof (cases v)
  case (JNumber x)
  with assms show ?thesis by (cases x) (auto split: if_splits)
next
  case (JString str)
  show ?thesis
  proof (cases str)
    case Nil
    with assms JString show ?thesis by simp
  next
    case (Cons c ds)
    show ?thesis
    proof (cases "c = CHR ''-''")
      case True
      with assms JString Cons have d: "ds \<noteq> []" "\<forall>x \<in> set ds. is_digit x"
        and n: "n = - int (digits_val ds)"
        by (auto simp: int_digits_def list_all_iff split: if_splits)
      from parseFloat_digits(2) [OF d] n show ?thesis
        by (simp add: JString Cons True)
    next
      case False
      with assms JString Cons have d: "str \<noteq> []" "\<forall>x \<in> set str. is_digit x"
        and n: "n = int (digits_val str)"
        by (auto simp: int_digits_def list_all_iff split: if_splits)
      from parseFloat_digits(1) [OF d] n show ?thesis
        by (simp add: JString)
    qed
  qed
next
  case JUndefined
  with assms show ?thesis by simp
qed

lemma int_value_in_domain:
  "int_value v = Some n \<Longrightarrow> in_domain f (parseFloat v) = within_domain f v"
  by (auto simp: int_value_parseFloat in_domain_def within_domain_def split: option.splits)









lemma get_rf_filled:
  "get (formData (rf_filled a b c)) ''fc'' = JString a"
  "get (formData (rf_filled a b c)) ''fs'' = JString b"
  "get (formData (rf_filled a b c)) ''rfg'' = JString c"
  "get (formData (rf_filled a b c)) ''ifg'' = JString ''20''"
  "get (formData (rf_filled a b c)) ''bbg'' = JString ''30''"
  "get (formData (rf_filled a b c)) ''modulation'' = JString ''QPSK''"
  by (simp_all add: rf_filled_def rf_handleChange_def rf_initial_state_def
        object_of_def get_def Let_def)



lemma fields_of_ranges: "fst ` set ranges = set numeric_fields"
  "map fst validationRules = numeric_fields"
  by (simp_all add: ranges_def validationRules_def numeric_fields_def)

lemma validateAll_errors_integers:
  assumes "\<forall>g \<in> set numeric_fields. int_value (get (config s) g) \<noteq> None"
  shows "errors (snd (validateAll s)) =
     map (\<lambda>p. (fst p, ''Must be between '' @ label (snd p)))
       (filter (\<lambda>p. \<not> within_domain (fst p) (get (config s) (fst p))) ranges)"
proof -
  have "filter (\<lambda>p. \<not> in_domain (fst p) (parseFloat (get (config s) (fst p)))) ranges
      = filter (\<lambda>p. \<not> within_domain (fst p) (get (config s) (fst p))) ranges"
  proof (rule filter_cong [OF refl])
    fix p assume "p \<in> set ranges"
    then have "fst p \<in> set numeric_fields" using fields_of_ranges(1) by blast
    with assms obtain n where "int_value (get (config s) (fst p)) = Some n" by blast
    then show "(\<not> in_domain (fst p) (parseFloat (get (config s) (fst p))))
             = (\<not> within_domain (fst p) (get (config s) (fst p)))"
      by (simp add: int_value_in_domain)
  qed
  then show ?thesis by (simp add: validateAll_errors_eq)
qed

lemma rf_verdict_integer:
  assumes "g \<in> set numeric_fields" "int_value v \<noteq> None" "truthy v"
  shows "(fst (rf_validateField g v t) \<noteq> None) = (\<not> within_domain g v)"
proof -
  from assms(1) obtain lo hi where d: "spec_domain g = Some (lo, hi)"
    by (auto simp: numeric_fields_def spec_domain_def)
  from assms(2) obtain n where n: "int_value v = Some n" by blast
  from rf_validateField_in_domain [OF d assms(3)] show ?thesis
    by (simp add: int_value_in_domain [OF n])
qed

lemma rf_error_fields_integers:
  assumes "\<forall>g \<in> set numeric_fields.
             int_value (get (formData t) g) \<noteq> None \<and> truthy (get (formData t) g)"
    and "fst (rf_handleSubmit t) = None"
  shows "map fst (rf_errors (snd (rf_handleSubmit t))) =
           filter (\<lambda>g. \<not> within_domain g (get (formData t) g)) numeric_fields"
proof -
  have "filter (\<lambda>g. fst (rf_validateField g (get (formData t) g) t) \<noteq> None) numeric_fields
      = filter (\<lambda>g. \<not> within_domain g (get (formData t) g)) numeric_fields"
    by (rule filter_cong [OF refl]) (use assms(1) rf_verdict_integer in blast)
  with rf_handleSubmit_error_fields [OF assms(2)] show ?thesis by simp
qed

lemma rf_validateField_integer:
  assumes "map_of validationRules f = Some rl" "truthy v" "int_value v = Some n"
  shows "fst (rf_validateField f v t) =
           (if of_int n < rule_min rl then
              Some (''Value too low. Minimum: '' @ formatValue (rule_min rl) (rule_unit rl))
            else if rule_max rl < of_int n then
              Some (''Value too high. Maximum: '' @ formatValue (rule_max rl) (rule_unit rl))
            else None)"
  using rf_validateField_number [OF assms(1,2) int_value_parseFloat [OF assms(3)]] .

text \<open>
  Claim C5, amended.  When the numeric fields hold integers, validation reports every field
  whose value is outside its range, not only the first, in the order \<open>fc\<close>, \<open>fs\<close>,
  \<open>rfg\<close>, \<open>ifg\<close>, \<open>bbg\<close> and under the field's name.  The main form's text gives
  the allowed range; the wizard's text gives the bound that was crossed.
\<close>

theorem validation_reports_every_violation:
  "((\<forall>g \<in> set numeric_fields. int_value (get (config s) g) \<noteq> None) \<longrightarrow>
      errors (snd (validateAll s)) =
        map (\<lambda>p. (fst p, ''Must be between '' @ label (snd p)))
          (filter (\<lambda>p. \<not> within_domain (fst p) (get (config s) (fst p))) ranges))
   \<and> ((\<forall>g \<in> set numeric_fields.
          int_value (get (formData t) g) \<noteq> None \<and> truthy (get (formData t) g))
        \<and> fst (rf_handleSubmit t) = None \<longrightarrow>
        map fst (rf_errors (snd (rf_handleSubmit t))) =
          filter (\<lambda>g. \<not> within_domain g (get (formData t) g)) numeric_fields)
   \<and> (map_of validationRules f = Some rl \<and> truthy v \<and> int_value v = Some n \<longrightarrow>
        fst (rf_validateField f v t) =
          (if of_int n < rule_min rl then
             Some (''Value too low. Minimum: '' @ formatValue (rule_min rl) (rule_unit rl))
           else if rule_max rl < of_int n then
             Some (''Value too high. Maximum: '' @ formatValue (rule_max rl) (rule_unit rl))
           else None))"
  using validateAll_errors_integers [of s] rf_error_fields_integers [of t]
    rf_validateField_integer [of f rl v n t]
  by blast

lemma int_value_texts:
  "int_value (JString ''5'') = Some 5"
  "int_value (JString ''14'') = Some 14"
  "int_value (JString ''20'') = Some 20"
  "int_value (JString ''30'') = Some 30"
  "int_value (JNumber (Fin 14)) = Some 14"
  "int_value (JNumber (Fin 20)) = Some 20"
  "int_value (JNumber (Fin 30)) = Some 30"
  by (simp_all add: int_digits_def is_digit_def digits_val_def digit_val_def)

theorem validation_reports_every_violation_witness:
  "map (\<lambda>g. int_value (get (config two_violations) g)) numeric_fields =
       [Some 5, Some 5, Some 14, Some 20, Some 30]
   \<and> errors (snd (validateAll two_violations)) =
       [(''fc'', ''Must be between 1 MHz - 6 GHz''), (''fs'', ''Must be between 1 MHz - 20 MHz'')]
   \<and> map (\<lambda>g. get (formData rf_low_frequencies) g) numeric_fields =
       [JString ''5'', JString ''5'', JString ''14'', JString ''20'', JString ''30'']
   \<and> map (\<lambda>g. int_value (get (formData rf_low_frequencies) g)) numeric_fields =
       [Some 5, Some 5, Some 14, Some 20, Some 30]
   \<and> fst (rf_handleSubmit rf_low_frequencies) = None
   \<and> map fst (rf_errors (snd (rf_handleSubmit rf_low_frequencies))) = [''fc'', ''fs'']
   \<and> fst (rf_validateField ''fc'' (JString ''5'') rf_low_frequencies) =
       Some ''Value too low. Minimum: 1 MHz''"
proof -
  have r: "map_of validationRules ''fc'' =
             Some \<lparr>rule_min = 1000000, rule_max = 6000000000, rule_unit = ''Hz'',
                   rule_label = ''Carrier Frequency'', rule_hint = ''Range: 1 MHz - 6 GHz''\<rparr>"
    by (simp add: validationRules_def)
  have a: "\<forall>g \<in> set numeric_fields. int_value (get (config two_violations) g) \<noteq> None"
    by (simp add: numeric_fields_def get_two_violations int_value_texts del: int_value.simps)
  have b: "\<forall>g \<in> set numeric_fields.
          int_value (get (formData rf_low_frequencies) g) \<noteq> None
          \<and> truthy (get (formData rf_low_frequencies) g)"
    by (simp add: numeric_fields_def rf_low_frequencies_def get_rf_filled int_value_texts
          del: int_value.simps)
  have none: "fst (rf_handleSubmit rf_low_frequencies) = None"
    by (simp add: rf_handleSubmit_eq validationRules_def rf_low_frequencies_def get_rf_filled
          rf_validateField_def parseFloat_5 Let_def)
  have w: "within_domain g (JString ''5'') = (g \<notin> {''fc'', ''fs''})"
    "within_domain ''rfg'' (JString ''14'')" "within_domain ''ifg'' (JString ''20'')"
    "within_domain ''bbg'' (JString ''30'')" "within_domain ''rfg'' (JNumber (Fin 14))"
    "within_domain ''ifg'' (JNumber (Fin 20))" "within_domain ''bbg'' (JNumber (Fin 30))" for g
    by (simp_all add: within_domain_def spec_domain_def int_value_texts del: int_value.simps)
  show ?thesis
    using a b none r w
      validation_reports_every_violation
        [where s = two_violations and t = rf_low_frequencies and f = "''fc''"
           and v = "JString ''5''" and n = 5]
    by (simp add: ranges_def numeric_fields_def get_two_violations rf_low_frequencies_def
          get_rf_filled int_value_texts formatValue_MHz del: int_value.simps)
qed

section \<open>Sessions the caller holds\<close>

lemma send_held:
  assumes "held" "m p = Open"
  shows "snd (send io m p frame held) p =
           (if bytes_written io < length frame \<or> reply io = None then Closed else Open)"
  using assms by (auto simp: send_def exchange_def Let_def close_def split: option.split)

text \<open>
  Claim C6, as stated, fails: a \<open>send\<close> on a session the caller holds returns after the
  acknowledgement with the port still open.
\<close>

theorem send_keeps_callers_session:
  "caller_session ''COM3'' = Open
   \<and> fst (send ack_port caller_session ''COM3'' [1, 2, 3] True) = Acknowledged
   \<and> snd (send ack_port caller_session ''COM3'' [1, 2, 3] True) ''COM3'' = Open"
  by (simp add: caller_session_def ack_port_def send_def exchange_def classify_def Let_def)

text \<open>
  Claim C6, amended.  A port that is not held when \<open>send\<close> starts is not held when it
  returns, whatever the port and the device do: the port does not open, the write is
  partial, no reply comes within the timeout, or a reply arrives.  A session the caller
  holds and passes to \<open>send\<close> is released after a partial write or a timeout and stays
  open after a reply.  \<open>probe\<close> leaves the manager's state exactly as it found it.
\<close>

theorem transport_releases_what_it_opened:
  "(m q = Closed \<longrightarrow> snd (send io m p frame held) q = Closed)
   \<and> snd (probe io m p) = m
   \<and> (held \<and> m p = Open \<longrightarrow>
        snd (send io m p frame held) p =
          (if bytes_written io < length frame \<or> reply io = None then Closed else Open))"
proof -
  have a: "snd (send io m p frame held) q = Closed" if "m q = Closed"
  proof (cases "q = p")
    case True
    with that show ?thesis by (simp add: send_Closed)
  next
    case False
    with that show ?thesis by (simp add: send_other)
  qed
  from a send_held [of held m p io frame] show ?thesis
    by (simp add: probe_state)
qed

theorem transport_releases_what_it_opened_witness:
  "no_sessions ''COM3'' = Closed
   \<and> fst (send failing_port no_sessions ''COM3'' [1, 2, 3] False) = PortUnavailable
   \<and> snd (send failing_port no_sessions ''COM3'' [1, 2, 3] False) ''COM3'' = Closed
   \<and> fst (send silent_port no_sessions ''COM3'' [1, 2, 3] False) = Timeout
   \<and> snd (send silent_port no_sessions ''COM3'' [1, 2, 3] False) ''COM3'' = Closed
   \<and> fst (send ack_port no_sessions ''COM3'' [1, 2, 3] False) = Acknowledged
   \<and> snd (send ack_port no_sessions ''COM3'' [1, 2, 3] False) ''COM3'' = Closed
   \<and> caller_session ''COM3'' = Open
   \<and> fst (send silent_port caller_session ''COM3'' [1, 2, 3] True) = Timeout
   \<and> snd (send silent_port caller_session ''COM3'' [1, 2, 3] True) ''COM3'' = Closed"
proof -
  have c: "no_sessions ''COM3'' = Closed" "caller_session ''COM3'' = Open"
    by (simp_all add: no_sessions_def caller_session_def)
  have f: "fst (send failing_port no_sessions ''COM3'' [1, 2, 3] False) = PortUnavailable"
    "fst (send silent_port no_sessions ''COM3'' [1, 2, 3] False) = Timeout"
    "fst (send ack_port no_sessions ''COM3'' [1, 2, 3] False) = Acknowledged"
    "fst (send silent_port caller_session ''COM3'' [1, 2, 3] True) = Timeout"
    by (simp_all add: send_def exchange_def failing_port_def silent_port_def ack_port_def
          no_sessions_def caller_session_def classify_def Let_def)
  have io: "reply silent_port = None" by (simp add: silent_port_def)
  show ?thesis
    using c f io
      transport_releases_what_it_opened [where m = no_sessions and q = "''COM3''"
        and io = failing_port and p = "''COM3''" and frame = "[1, 2, 3]" and held = False]
      transport_releases_what_it_opened [where m = no_sessions and q = "''COM3''"
        and io = silent_port and p = "''COM3''" and frame = "[1, 2, 3]" and held = False]
      transport_releases_what_it_opened [where m = no_sessions and q = "''COM3''"
        and io = ack_port and p = "''COM3''" and frame = "[1, 2, 3]" and held = False]
      transport_releases_what_it_opened [where m = caller_session and q = "''COM3''"
        and io = silent_port and p = "''COM3''" and frame = "[1, 2, 3]" and held = True]
    by simp
qed

end
